theory Spec2Isabelle
  imports Main "HOL-Library.Sublist" "HOL-Library.Multiset"
begin

section \<open>The history table component (frontend/src/components/HistoryTable/index.jsx)\<close>

subsection \<open>JavaScript values and rows\<close>

text \<open>
  The fields of a history row and the primary key of a label are JavaScript values. The
  model has the primitive values the component can meet; numbers are integers (ids), so
  there is no NaN and the strict equality \<open>===\<close> is equality of values of the same
  kind.
\<close>

datatype jsval = JUndefined | JNull | JBool bool | JNum int | JStr string

definition strict_eq :: "jsval \<Rightarrow> jsval \<Rightarrow> bool" where
  "strict_eq a b = (a = b)"

text \<open>
  A row of \<open>history_data[0]\<close>, with the accessors of \<open>columns\<close>: \<open>id\<close>, \<open>data\<close>,
  \<open>old_label\<close>, \<open>old_label_id\<close> and \<open>timestamp\<close>. The timestamp is a point on a
  linear time scale.
\<close>

record row =
  row_id :: jsval
  data :: jsval
  old_label :: jsval
  old_label_id :: jsval
  timestamp :: nat

record label =
  pk :: jsval
  name :: jsval

text \<open>The filter object the table hands to a column's \<open>filterMethod\<close>: \<open>{id, value}\<close>.\<close>

record filter_obj =
  filter_id :: string
  filter_value :: string

text \<open>An entry of the table's sort state: \<open>{id, desc}\<close>.\<close>

record sort_spec =
  sort_id :: string
  desc :: bool

subsection \<open>Strings: \<open>String(v)\<close>, \<open>toLowerCase\<close>, \<open>includes\<close>\<close>

fun digit_chars :: "nat \<Rightarrow> string" where
  "digit_chars n =
     (if n < 10 then [char_of (48 + n)]
      else digit_chars (n div 10) @ [char_of (48 + n mod 10)])"

text \<open>\<open>String(v)\<close>: a string is itself, the other primitives print as JavaScript prints them.\<close>

fun String_of :: "jsval \<Rightarrow> string" where
  "String_of JUndefined = ''undefined''"
| "String_of JNull = ''null''"
| "String_of (JBool b) = (if b then ''true'' else ''false'')"
| "String_of (JNum n) = (if n < 0 then CHR ''-'' # digit_chars (nat (- n)) else digit_chars (nat n))"
| "String_of (JStr s) = s"

text \<open>
  \<open>toLowerCase\<close> on text of the ASCII range: the letters \<open>A\<close> to \<open>Z\<close> (codes 65 to 90)
  move to \<open>a\<close> to \<open>z\<close>, every other character stays.
\<close>

definition lower_char :: "char \<Rightarrow> char" where
  "lower_char c =
     (if 65 \<le> (of_char c :: nat) \<and> (of_char c :: nat) \<le> 90
      then char_of ((of_char c :: nat) + 32) else c)"

definition toLowerCase :: "string \<Rightarrow> string" where
  "toLowerCase s = map lower_char s"

text \<open>\<open>s.includes(t)\<close>: \<open>t\<close> occurs in \<open>s\<close> at some position.\<close>

fun includes_str :: "string \<Rightarrow> string \<Rightarrow> bool" where
  "includes_str [] t = (t = [])"
| "includes_str (c # s) t = (prefix t (c # s) \<or> includes_str s t)"

subsection \<open>The Data column's \<open>filterMethod\<close>\<close>

definition filterMethod :: "filter_obj \<Rightarrow> row \<Rightarrow> bool" where
  "filterMethod flt r =
     (if includes_str (toLowerCase (String_of (data r))) (toLowerCase (filter_value flt))
      then True else False)"

subsection \<open>\<open>render\<close>\<close>

text \<open>
  The props of the component that \<open>render\<close> reads: \<open>history_data\<close> (possibly undefined; its
  first element is the array of rows) and \<open>labels\<close>.
\<close>

record props =
  history_data :: "row list list option"
  labels :: "label list"

definition table_data_of :: "props \<Rightarrow> row list" where
  "table_data_of p =
     (case history_data p of
        Some (h # rest) \<Rightarrow> h
      | _ \<Rightarrow> [])"

text \<open>
  The loop \<open>for(var i = 5; i < table_data.length; i+=5*counter)\<close>: the body pushes \<open>i\<close>
  and increments \<open>counter\<close>, then the update adds five times the incremented counter.
\<close>

function page_sizes_loop :: "nat \<Rightarrow> nat \<Rightarrow> nat \<Rightarrow> nat list \<Rightarrow> nat list" where
  "page_sizes_loop n i counter page_sizes =
     (if i < n
      then page_sizes_loop n (i + 5 * (counter + 1)) (counter + 1) (page_sizes @ [i])
      else page_sizes)"
  by pat_completeness auto
termination
  by (relation "measure (\<lambda>(n, i, counter, page_sizes). n - i)") auto

text \<open>\<open>page_sizes\<close> for a table of \<open>n\<close> rows: \<open>[1]\<close>, the loop, then \<open>push(table_data.length)\<close>.\<close>

definition page_sizes :: "nat \<Rightarrow> nat list" where
  "page_sizes n = page_sizes_loop n 5 1 [1] @ [n]"

text \<open>The props \<open>render\<close> passes to \<open>ReactTable\<close>.\<close>

record table_props =
  table_data :: "row list"
  pageSizeOptions :: "nat list"
  pageSize :: nat
  filterable :: bool
  defaultSorted :: "sort_spec list"

definition render :: "props \<Rightarrow> table_props" where
  "render p =
     (let td = table_data_of p in
      \<lparr> table_data = td,
        pageSizeOptions = page_sizes (length td),
        pageSize = (if length td < 50 then length td else 50),
        filterable = True,
        defaultSorted = [\<lparr> sort_id = ''timestamp'', desc = True \<rparr>] \<rparr>)"

subsection \<open>The buttons of an expanded row\<close>

text \<open>
  A click calls the action creators \<open>changeLabel\<close> and \<open>changeToSkip\<close> of the props; a
  handler is modelled by the list of calls it makes.
\<close>

datatype action =
  ChangeLabel jsval jsval jsval
| ChangeToSkip jsval jsval

definition label_onClick :: "label \<Rightarrow> row \<Rightarrow> action list" where
  "label_onClick lbl r =
     (if \<not> strict_eq (old_label_id r) (pk lbl)
      then [ChangeLabel (row_id r) (old_label_id r) (pk lbl)]
      else [])"

definition skip_onClick :: "row \<Rightarrow> action list" where
  "skip_onClick r = [ChangeToSkip (row_id r) (old_label_id r)]"

subsection \<open>What the table does with its props\<close>

text \<open>
  \<open>ReactTable\<close> is a library. Of its behaviour the model has: the filter typed into the
  Data column keeps the rows its \<open>filterMethod\<close> accepts, and no filter keeps every row;
  the sort state is \<open>defaultSorted\<close> until the user sorts; sorting by the timestamp
  column is stable, descending when \<open>desc\<close> is set.
\<close>

definition filterData :: "string option \<Rightarrow> row list \<Rightarrow> row list" where
  "filterData filtered rows =
     (case filtered of
        None \<Rightarrow> rows
      | Some v \<Rightarrow> filter (filterMethod \<lparr> filter_id = ''data'', filter_value = v \<rparr>) rows)"

definition sortByColumn :: "sort_spec \<Rightarrow> row list \<Rightarrow> row list" where
  "sortByColumn s rows =
     (if sort_id s = ''timestamp''
      then (if desc s then sort_key (\<lambda>r. - int (timestamp r)) rows
            else sort_key (\<lambda>r. int (timestamp r)) rows)
      else rows)"

definition sortData :: "sort_spec list \<Rightarrow> row list \<Rightarrow> row list" where
  "sortData sorted_state rows = foldr sortByColumn sorted_state rows"

definition sortedData :: "sort_spec list option \<Rightarrow> string option \<Rightarrow> table_props \<Rightarrow> row list" where
  "sortedData user_sorted filtered tp =
     sortData (case user_sorted of None \<Rightarrow> defaultSorted tp | Some s \<Rightarrow> s)
       (filterData filtered (table_data tp))"

subsection \<open>The growth sequence of the page sizes\<close>

text \<open>
  The sizes the loop visits: 5, 15, 30, 50, 75, ...; each is the one before plus five
  times the counter, which is 2 at the first update.
\<close>

fun growth_size :: "nat \<Rightarrow> nat" where
  "growth_size 0 = 0"
| "growth_size (Suc k) = growth_size k + 5 * Suc k"

section \<open>The revision subsystem\<close>

text \<open>
  The component above only calls \<open>changeLabel\<close> and \<open>changeToSkip\<close>; the store, the
  projection and the command handler behind them are not among the source files. They are
  modelled from sections 3 and 4 of the specification.
\<close>

subsection \<open>Data model\<close>

text \<open>
  Modelled from the spec: a label id as an event carries it, a label's stable identifier
  or the reserved sentinel for "skipped". A nullable label id (\<open>previous_label_id\<close>, the
  "unset" of the projection) is a \<open>label_id option\<close>.
\<close>

datatype label_id = Label nat | Skipped

text \<open>Modelled from the spec: the LabelEvent of section 3 (the handler is missing from the sources).\<close>

record LabelEvent =
  event_id :: nat
  item_id :: nat
  previous_label_id :: "label_id option"
  new_label_id :: label_id
  event_timestamp :: nat
  raw_data :: string

text \<open>Modelled from the spec: an entry of the CurrentLabelProjection, \<open>{current_label_id, as_of_event_id}\<close>.\<close>

record projection_entry =
  current_label_id :: label_id
  as_of_event_id :: nat

text \<open>Modelled from the spec: the error kinds of section 7.\<close>

datatype error = ConflictError | StaleStateError | NotFoundError | ValidationError

text \<open>
  Modelled from the spec: the state of the subsystem, the Revision Store (the events in
  the order of their appends), the Current-Label Projection, and, for the creation time
  of an event, a clock; \<open>content\<close> is the text of each data item, copied into
  \<open>raw_data\<close>.
\<close>

record state =
  events :: "LabelEvent list"
  projection :: "nat \<rightharpoonup> projection_entry"
  now :: nat
  content :: "nat \<Rightarrow> string"

subsection \<open>Revision Store\<close>

text \<open>
  Modelled from the spec: \<open>read_all(item_id?)\<close> of section 4.1, the events (of one item,
  or all) ordered by timestamp ascending.
\<close>

definition read_all :: "LabelEvent list \<Rightarrow> nat option \<Rightarrow> LabelEvent list" where
  "read_all es item =
     sort_key event_timestamp
       (case item of None \<Rightarrow> es | Some i \<Rightarrow> filter (\<lambda>e. item_id e = i) es)"

text \<open>
  Modelled from the spec: replaying a sequence of events and taking the last
  \<open>new_label_id\<close>; null when there is no event.
\<close>

definition replay_last :: "LabelEvent list \<Rightarrow> label_id option" where
  "replay_last es = (case es of [] \<Rightarrow> None | e # rest \<Rightarrow> Some (new_label_id (last es)))"

text \<open>Modelled from the spec: the item's current chain tip, against which \<open>append\<close> checks.\<close>

definition chain_tip :: "LabelEvent list \<Rightarrow> nat \<Rightarrow> label_id option" where
  "chain_tip es item = replay_last (read_all es (Some item))"

text \<open>
  Modelled from the spec: \<open>append(event) -> event_id\<close> of section 4.1, with its
  ConflictError; the event id is assigned by the store, one after the other.
\<close>

definition store_append :: "state \<Rightarrow> LabelEvent \<Rightarrow> error + (nat \<times> state)" where
  "store_append s e =
     (if previous_label_id e \<noteq> chain_tip (events s) (item_id e) then Inl ConflictError
      else Inr (length (events s),
                s\<lparr>events := events s @ [e\<lparr>event_id := length (events s)\<rparr>]\<rparr>))"

subsection \<open>Current-Label Projection\<close>

text \<open>
  Modelled from the spec: \<open>get(item_id)\<close> of section 4.2; \<open>None\<close> is "unset",
  \<open>Some Skipped\<close> is "skipped".
\<close>

definition get :: "(nat \<rightharpoonup> projection_entry) \<Rightarrow> nat \<Rightarrow> label_id option" where
  "get proj item = map_option current_label_id (proj item)"

text \<open>Modelled from the spec: the projection advanced by one event (the latest label per item).\<close>

definition advance :: "(nat \<rightharpoonup> projection_entry) \<Rightarrow> LabelEvent \<Rightarrow> (nat \<rightharpoonup> projection_entry)" where
  "advance proj e =
     proj(item_id e \<mapsto> \<lparr> current_label_id = new_label_id e, as_of_event_id = event_id e \<rparr>)"

text \<open>
  Modelled from the spec: \<open>rebuild()\<close> of section 4.2, the fold of the Revision Store
  from the empty projection, the last event of each item winning.
\<close>

definition rebuild :: "LabelEvent list \<Rightarrow> (nat \<rightharpoonup> projection_entry)" where
  "rebuild es = foldl advance Map.empty (read_all es None)"

subsection \<open>Revision Command Handler\<close>

text \<open>Modelled from the spec: what a command that does not fail reports, the new event's id or a no-op.\<close>

datatype outcome = Appended nat | NoOp

text \<open>
  Modelled from the spec: the append and projection update pair of sections 4.2 and 4.4.
  The event is stamped with the clock, which then moves on.
\<close>

definition commit :: "state \<Rightarrow> nat \<Rightarrow> label_id option \<Rightarrow> label_id \<Rightarrow> error + (outcome \<times> state)" where
  "commit s item prev new =
     (let e = \<lparr> event_id = length (events s), item_id = item, previous_label_id = prev,
                new_label_id = new, event_timestamp = now s, raw_data = content s item \<rparr>
      in case store_append s e of
           Inl err \<Rightarrow> Inl err
         | Inr (eid, s') \<Rightarrow>
             Inr (Appended eid,
                  s'\<lparr>projection := advance (projection s') (e\<lparr>event_id := eid\<rparr>),
                     now := Suc (now s')\<rparr>))"

text \<open>
  Modelled from the spec: \<open>relabel(item_id, expected_previous_label_id, new_label_id)\<close> of
  section 4.4, in the order of its sentence: the staleness check, the no-op, the append.
\<close>

definition relabel :: "state \<Rightarrow> nat \<Rightarrow> label_id option \<Rightarrow> label_id \<Rightarrow> error + (outcome \<times> state)" where
  "relabel s item expected new =
     (if get (projection s) item \<noteq> expected then Inl StaleStateError
      else if Some new = expected then Inr (NoOp, s)
      else commit s item expected new)"

text \<open>Modelled from the spec: \<open>skip(item_id, expected_previous_label_id)\<close> of section 4.4.\<close>

definition skip :: "state \<Rightarrow> nat \<Rightarrow> label_id option \<Rightarrow> error + (outcome \<times> state)" where
  "skip s item expected =
     (if get (projection s) item \<noteq> expected then Inl StaleStateError
      else commit s item expected Skipped)"

text \<open>
  Modelled from the spec: the requests of the boundary (section 6) and the passing of
  time between them. A request that fails leaves the state as it was: the error goes to
  the caller and nothing is tried again.
\<close>

datatype request =
  Relabel nat "label_id option" label_id
| Skip nat "label_id option"
| Elapse nat

fun handle :: "state \<Rightarrow> request \<Rightarrow> state" where
  "handle s (Relabel item expected new) =
     (case relabel s item expected new of Inl err \<Rightarrow> s | Inr (out, s') \<Rightarrow> s')"
| "handle s (Skip item expected) =
     (case skip s item expected of Inl err \<Rightarrow> s | Inr (out, s') \<Rightarrow> s')"
| "handle s (Elapse d) = s\<lparr>now := now s + d\<rparr>"

text \<open>Modelled from the spec: the empty store and projection, and the state after a sequence of requests.\<close>

definition init :: "(nat \<Rightarrow> string) \<Rightarrow> state" where
  "init c = \<lparr> events = [], projection = Map.empty, now = 0, content = c \<rparr>"

definition run :: "(nat \<Rightarrow> string) \<Rightarrow> request list \<Rightarrow> state" where
  "run c reqs = foldl handle (init c) reqs"

text \<open>Modelled from the spec: the number of events in an item's history (its \<open>total_count\<close>).\<close>

definition history_count :: "state \<Rightarrow> nat \<Rightarrow> nat" where
  "history_count s item = length (read_all (events s) (Some item))"

section \<open>Auxiliary notions and example data\<close>

text \<open>The final entry of a list of page sizes duplicates or falls below an earlier entry.\<close>

definition final_not_above_earlier :: "nat list \<Rightarrow> bool" where
  "final_not_above_earlier ps = list_ex (\<lambda>e. last ps \<le> e) (butlast ps)"

definition sample_row :: "nat \<Rightarrow> string \<Rightarrow> row" where
  "sample_row t d =
     \<lparr> row_id = JNum (int t), data = JStr d, old_label = JStr ''spam'',
       old_label_id = JNum 1, timestamp = t \<rparr>"

text \<open>Twelve rows, three of them about a cat; three rows; sixty rows.\<close>

definition rows12 :: "row list" where
  "rows12 = map (\<lambda>t. sample_row t (if t < 3 then ''My Cat'' else ''a dog'')) [0..<12]"

definition rows3 :: "row list" where
  "rows3 = [sample_row 7 ''Cat'', sample_row 9 ''cATs'', sample_row 8 ''the cat'']"

definition rows60 :: "row list" where
  "rows60 = map (\<lambda>t. sample_row t ''a dog'') [0..<60]"

definition sample_labels :: "label list" where
  "sample_labels = [\<lparr> pk = JNum 1, name = JStr ''spam'' \<rparr>, \<lparr> pk = JNum 2, name = JStr ''ham'' \<rparr>]"

definition props_of :: "row list \<Rightarrow> props" where
  "props_of rows = \<lparr> history_data = Some [rows], labels = sample_labels \<rparr>"

text \<open>
  The consistency of a state of the revision subsystem: the timestamps of the store
  strictly increase, all lie before the clock, event ids count the appends, and the
  projection is the fold of the store.
\<close>

definition store_ok :: "state \<Rightarrow> bool" where
  "store_ok s =
     (sorted_wrt (<) (map event_timestamp (events s))
      \<and> list_all (\<lambda>e. event_timestamp e < now s) (events s)
      \<and> map event_id (events s) = [0..<length (events s)]
      \<and> projection s = foldl advance Map.empty (events s))"

text \<open>Example requests: label item 7, skip it, relabel it, with a stale and a redundant request between.\<close>

definition sample_requests :: "request list" where
  "sample_requests =
     [Relabel 7 None (Label 10), Elapse 3, Skip 7 (Some (Label 10)),
      Relabel 7 (Some (Label 10)) (Label 20), Relabel 7 (Some Skipped) Skipped,
      Relabel 8 None (Label 10), Relabel 7 (Some Skipped) (Label 20)]"

text \<open>The state after item 7 received its first label, 10.\<close>

definition labelled_once :: state where
  "labelled_once = run (\<lambda>i. ''some text'') [Relabel 7 None (Label 10)]"

section \<open>Page sizes\<close>

lemma growth_size_ge: "k \<le> growth_size k"
  by (induction k) auto

lemma growth_size_mono: "a \<le> b \<Longrightarrow> growth_size a \<le> growth_size b"
  by (induction b) (auto simp: le_Suc_eq)

lemma growth_size_closed: "2 * growth_size k = 5 * k * (k + 1)"
  by (induction k) (auto simp: algebra_simps)

lemma page_sizes_loop_growth:
  "page_sizes_loop n (growth_size c) c ps =
     ps @ filter (\<lambda>s. s < n) (map growth_size [c..<Suc n])"
proof (induction "n - growth_size c" arbitrary: c ps rule: less_induct)
  case less
  show ?case
  proof (cases "growth_size c < n")
    case True
    have cn: "c < n"
      using True growth_size_ge[of c] by simp
    have smaller: "n - growth_size (Suc c) < n - growth_size c"
      using True by simp
    have up: "[c..<Suc n] = c # [Suc c..<Suc n]"
      using cn by (simp add: upt_conv_Cons)
    have "page_sizes_loop n (growth_size c) c ps
        = page_sizes_loop n (growth_size (Suc c)) (Suc c) (ps @ [growth_size c])"
      using True by (simp add: add.commute)
    also have "\<dots> = (ps @ [growth_size c])
        @ filter (\<lambda>s. s < n) (map growth_size [Suc c..<Suc n])"
      using less[OF smaller] .
    finally show ?thesis
      using True up by simp
  next
    case False
    have "\<not> growth_size k < n" if "c \<le> k" for k
      using False growth_size_mono[OF that] by simp
    then have "filter (\<lambda>s. s < n) (map growth_size [c..<Suc n]) = []"
      by (auto simp: filter_empty_conv)
    then show ?thesis
      using False by simp
  qed
qed

lemma page_sizes_char:
  "page_sizes n = 1 # filter (\<lambda>s. s < n) (map growth_size [1..<Suc n]) @ [n]"
proof -
  have "page_sizes_loop n 5 1 [1] = page_sizes_loop n (growth_size 1) 1 [1]"
    by simp
  then show ?thesis
    unfolding page_sizes_def by (simp only: page_sizes_loop_growth) simp
qed

lemma page_sizes_small: "n \<le> 5 \<Longrightarrow> page_sizes n = [1, n]"
  unfolding page_sizes_def by simp

lemma pageSizeOptions_render:
  "pageSizeOptions (render p) = page_sizes (length (table_data_of p))"
  by (simp add: render_def Let_def)

lemma page_sizes_12: "page_sizes 12 = [1, 5, 12]"
  by code_simp

lemma page_sizes_3: "page_sizes 3 = [1, 3]"
  by (simp add: page_sizes_small)

lemma table_data_of_props_of: "table_data_of (props_of rows) = rows"
  by (simp add: table_data_of_def props_of_def)

lemma length_rows12: "length rows12 = 12"
  by (simp add: rows12_def)

lemma length_rows3: "length rows3 = 3"
  by (simp add: rows3_def)

lemma length_rows60: "length rows60 = 60"
  by (simp add: rows60_def)

lemma hd_page_sizes: "hd (page_sizes n) = 1"
  by (simp add: page_sizes_char)

lemma last_page_sizes: "last (page_sizes n) = n"
  by (simp add: page_sizes_def)

text \<open>
  C1, as the spec states it, fails: for 12 rows the options are \<open>[1, 5, 12]\<close>, not
  \<open>[5, 10, 12]\<close>, and the first option is 1, not 5.
\<close>

theorem page_sizes_12_counterexample:
  "length (table_data_of (props_of rows12)) = 12
   \<and> pageSizeOptions (render (props_of rows12)) = [1, 5, 12]
   \<and> pageSizeOptions (render (props_of rows12)) \<noteq> [5, 10, 12]
   \<and> hd (pageSizeOptions (render (props_of rows12))) \<noteq> 5"
  by (simp add: pageSizeOptions_render table_data_of_props_of length_rows12 page_sizes_12)

text \<open>
  C1, amended: for every result set of \<open>n\<close> rows the page-size options are the constant
  1, then the sizes that start at 5 and grow by the rule size = previous + 5 \<times> counter
  (the counter is 2 at the first step: 5, 15, 30, 50, ...; the \<open>k\<close>-th size is
  \<open>5 k (k + 1) / 2\<close>) as long as they are strictly below \<open>n\<close>, then \<open>n\<close> itself; 12
  rows yield \<open>[1, 5, 12]\<close>.
\<close>

theorem page_sizes_growth:
  "pageSizeOptions (render p) = page_sizes (length (table_data_of p))
   \<and> page_sizes n = 1 # filter (\<lambda>s. s < n) (map growth_size [1..<Suc n]) @ [n]
   \<and> growth_size 1 = 5
   \<and> growth_size (Suc k) = growth_size k + 5 * (k + 1)
   \<and> 2 * growth_size k = 5 * k * (k + 1)
   \<and> page_sizes 12 = [1, 5, 12]"
proof -
  have "growth_size 1 = 5"
    by simp
  moreover have "growth_size (Suc k) = growth_size k + 5 * (k + 1)"
    by simp
  ultimately show ?thesis
    using pageSizeOptions_render page_sizes_char growth_size_closed page_sizes_12 by blast
qed

theorem page_sizes_growth_witness:
  "pageSizeOptions (render (props_of rows12)) = [1, 5, 12]"
proof -
  from page_sizes_growth [of "props_of rows12" 12 0]
  have "pageSizeOptions (render (props_of rows12))
      = page_sizes (length (table_data_of (props_of rows12)))"
    and "page_sizes 12 = [1, 5, 12]"
    by blast+
  then show ?thesis
    by (simp add: table_data_of_props_of length_rows12)
qed

text \<open>
  C8, as stated, fails for a total of 3 (at most 5): the options are \<open>[1, 3]\<close>, and the
  final entry neither duplicates nor falls below the earlier one.
\<close>

theorem page_sizes_small_counterexample:
  "length (table_data_of (props_of rows3)) = 3
   \<and> pageSizeOptions (render (props_of rows3)) = [1, 3]
   \<and> \<not> final_not_above_earlier (pageSizeOptions (render (props_of rows3)))"
  by (simp add: pageSizeOptions_render table_data_of_props_of length_rows3 page_sizes_3
      final_not_above_earlier_def)

text \<open>
  C8, amended: for every rendered history table the page-size options begin with the
  constant 1 and their last element is the exact total row count; a total of at most 5
  gives exactly \<open>[1, total]\<close>, so a total of 0 gives \<open>[1, 0]\<close> and a total of 1 gives
  \<open>[1, 1]\<close>, and the final entry duplicates or falls below the earlier entry exactly when
  the total is at most 1.
\<close>

theorem page_sizes_first_last:
  "hd (pageSizeOptions (render p)) = 1
   \<and> last (pageSizeOptions (render p)) = length (table_data_of p)
   \<and> page_sizes 0 = [1, 0]
   \<and> page_sizes 1 = [1, 1]
   \<and> (length (table_data_of p) \<le> 5 \<longrightarrow>
        pageSizeOptions (render p) = [1, length (table_data_of p)]
        \<and> final_not_above_earlier (pageSizeOptions (render p)) = (length (table_data_of p) \<le> 1))"
proof -
  have small: "page_sizes n = [1, n] \<and> final_not_above_earlier (page_sizes n) = (n \<le> 1)"
    if "n \<le> 5" for n
    using that by (simp add: page_sizes_small final_not_above_earlier_def)
  have "page_sizes 0 = [1, 0]" and "page_sizes 1 = [1, 1]"
    by (simp_all add: page_sizes_small)
  then show ?thesis
    unfolding pageSizeOptions_render using hd_page_sizes last_page_sizes small by blast
qed

theorem page_sizes_first_last_witness:
  "length (table_data_of (props_of rows3)) \<le> 5
   \<and> hd (pageSizeOptions (render (props_of rows3))) = 1
   \<and> last (pageSizeOptions (render (props_of rows3))) = 3
   \<and> pageSizeOptions (render (props_of rows3)) = [1, 3]"
  using page_sizes_first_last [of "props_of rows3"]
  by (simp add: table_data_of_props_of length_rows3)

text \<open>
  C9: the initial page size is the total row count when that count is below 50, and 50
  otherwise: \<open>pageSize = min(total, 50)\<close>.
\<close>

theorem pageSize_capped:
  "pageSize (render p) = min (length (table_data_of p)) 50
   \<and> (length (table_data_of p) < 50 \<longrightarrow> pageSize (render p) = length (table_data_of p))
   \<and> (50 \<le> length (table_data_of p) \<longrightarrow> pageSize (render p) = 50)"
  by (simp add: render_def Let_def)

theorem pageSize_capped_witness:
  "length (table_data_of (props_of rows12)) < 50
   \<and> pageSize (render (props_of rows12)) = 12
   \<and> 50 \<le> length (table_data_of (props_of rows60))
   \<and> pageSize (render (props_of rows60)) = 50"
  using pageSize_capped [of "props_of rows12"] pageSize_capped [of "props_of rows60"]
  by (simp add: table_data_of_props_of length_rows12 length_rows60)

section \<open>Filtering and sorting\<close>

lemma includes_str_sublist: "includes_str s t = sublist t s"
  by (induction s) (simp_all add: sublist_Cons_right)

lemma lower_char_idem: "lower_char (lower_char c) = lower_char c"
  by (simp add: lower_char_def)

lemma toLowerCase_idem: "toLowerCase (toLowerCase s) = toLowerCase s"
  by (simp add: toLowerCase_def lower_char_idem)

lemma filterMethod_sublist:
  "filterMethod flt r
     = sublist (toLowerCase (filter_value flt)) (toLowerCase (String_of (data r)))"
  by (simp add: filterMethod_def includes_str_sublist)

lemma table_data_render: "table_data (render p) = table_data_of p"
  by (simp add: render_def Let_def)

lemma length_filterData: "length (filterData filtered rows) \<le> length rows"
  by (simp add: filterData_def split: option.split)

lemma filter_cat_rows12: "length (filterData (Some ''cat'') rows12) = 3"
  by code_simp

lemma filter_cat_rows3: "length (filterData (Some ''cat'') rows3) = 3"
  by code_simp

text \<open>
  C3, as stated, fails: \<open>render\<close> computes the options from the whole \<open>table_data\<close> it
  hands to the table, which filters afterwards. With the filter "cat" the 12-row table
  and the 3-row table both show 3 rows, yet their options differ, and those of the
  12-row table are not the options for 3 rows.
\<close>

theorem pageSizeOptions_filter_counterexample:
  "length (filterData (Some ''cat'') (table_data (render (props_of rows12)))) = 3
   \<and> length (filterData (Some ''cat'') (table_data (render (props_of rows3)))) = 3
   \<and> pageSizeOptions (render (props_of rows12)) = [1, 5, 12]
   \<and> pageSizeOptions (render (props_of rows3)) = [1, 3]
   \<and> pageSizeOptions (render (props_of rows12)) \<noteq> page_sizes 3"
  by (simp add: table_data_render pageSizeOptions_render table_data_of_props_of
      filter_cat_rows12 filter_cat_rows3 length_rows12 length_rows3 page_sizes_12 page_sizes_3)

text \<open>
  C3, amended: the page-size options are computed at every render from the size of the
  whole (unfiltered) row array handed to the table, whatever filter the table then
  applies: they are a function of the number of rows of \<open>history_data[0]\<close>, and the rows
  a filter keeps are never more than that number.
\<close>

theorem pageSizeOptions_unfiltered:
  "pageSizeOptions (render p) = page_sizes (length (filterData None (table_data (render p))))
   \<and> length (filterData filtered (table_data (render p))) \<le> length (table_data (render p))
   \<and> (length (table_data_of p) = length (table_data_of q) \<longrightarrow>
        pageSizeOptions (render p) = pageSizeOptions (render q))"
  by (simp add: pageSizeOptions_render table_data_render length_filterData)
    (simp add: filterData_def)

theorem pageSizeOptions_unfiltered_witness:
  "length (table_data_of (props_of rows3)) = length (table_data_of (props_of (rev rows3)))
   \<and> props_of rows3 \<noteq> props_of (rev rows3)
   \<and> pageSizeOptions (render (props_of rows3)) = pageSizeOptions (render (props_of (rev rows3)))"
proof -
  have len: "length (table_data_of (props_of rows3)) = length (table_data_of (props_of (rev rows3)))"
    by (simp add: table_data_of_props_of)
  have "props_of rows3 \<noteq> props_of (rev rows3)"
    by (simp add: props_of_def rows3_def sample_row_def)
  with len pageSizeOptions_unfiltered [of "props_of rows3" None "props_of (rev rows3)"]
  show ?thesis
    by blast
qed

text \<open>
  C5: a row matches a filter exactly when the lowercased text of its \<open>data\<close> contains the
  lowercased filter string as a substring; lowercasing the filter string beforehand
  changes nothing; with no filter all rows are returned, and with one exactly the matching
  rows, in their order.
\<close>

theorem filterMethod_substring:
  "filterMethod flt r
     = (\<exists>ps ss. toLowerCase (String_of (data r)) = ps @ toLowerCase (filter_value flt) @ ss)
   \<and> filterMethod (flt\<lparr>filter_value := toLowerCase (filter_value flt)\<rparr>) r = filterMethod flt r
   \<and> filterData None rows = rows
   \<and> filterData (Some v) rows
       = filter (\<lambda>r. sublist (toLowerCase v) (toLowerCase (String_of (data r)))) rows"
proof -
  have "filter (filterMethod \<lparr> filter_id = ''data'', filter_value = v \<rparr>) rows
      = filter (\<lambda>r. sublist (toLowerCase v) (toLowerCase (String_of (data r)))) rows"
    by (rule filter_cong) (simp_all add: filterMethod_sublist)
  then have "filterData (Some v) rows
      = filter (\<lambda>r. sublist (toLowerCase v) (toLowerCase (String_of (data r)))) rows"
    by (simp add: filterData_def)
  moreover have "filterData None rows = rows"
    by (simp add: filterData_def)
  moreover have "filterMethod flt r
      = (\<exists>ps ss. toLowerCase (String_of (data r)) = ps @ toLowerCase (filter_value flt) @ ss)"
    by (simp add: filterMethod_sublist sublist_def)
  moreover have "filterMethod (flt\<lparr>filter_value := toLowerCase (filter_value flt)\<rparr>) r
      = filterMethod flt r"
    by (simp add: filterMethod_sublist toLowerCase_idem)
  ultimately show ?thesis
    by blast
qed

theorem filterMethod_substring_witness:
  "filterMethod \<lparr> filter_id = ''data'', filter_value = ''CAT'' \<rparr> (sample_row 0 ''My Cat'')
   \<and> \<not> filterMethod \<lparr> filter_id = ''data'', filter_value = ''CAT'' \<rparr> (sample_row 0 ''a dog'')"
proof -
  let ?flt = "\<lparr> filter_id = ''data'', filter_value = ''CAT'' \<rparr>"
  have "toLowerCase (String_of (data (sample_row 0 ''My Cat'')))
      = ''my '' @ toLowerCase (filter_value ?flt) @ []"
    by code_simp
  then have yes: "\<exists>ps ss. toLowerCase (String_of (data (sample_row 0 ''My Cat'')))
      = ps @ toLowerCase (filter_value ?flt) @ ss"
    by blast
  have "\<not> includes_str (toLowerCase (String_of (data (sample_row 0 ''a dog''))))
      (toLowerCase (filter_value ?flt))"
    by code_simp
  then have no: "\<not> (\<exists>ps ss. toLowerCase (String_of (data (sample_row 0 ''a dog'')))
      = ps @ toLowerCase (filter_value ?flt) @ ss)"
    by (simp add: includes_str_sublist sublist_def)
  from filterMethod_substring [of ?flt "sample_row 0 ''My Cat''" "[]" "[]"] yes
  have "filterMethod ?flt (sample_row 0 ''My Cat'')"
    by blast
  moreover from filterMethod_substring [of ?flt "sample_row 0 ''a dog''" "[]" "[]"] no
  have "\<not> filterMethod ?flt (sample_row 0 ''a dog'')"
    by blast
  ultimately show ?thesis
    by blast
qed

lemma sortData_default:
  "sortData [\<lparr> sort_id = ''timestamp'', desc = True \<rparr>] rows
     = sort_key (\<lambda>r. - int (timestamp r)) rows"
  by (simp add: sortData_def sortByColumn_def)

lemma sort_key_desc_sorted:
  "sorted_wrt (\<lambda>a b. timestamp b \<le> timestamp a) (sort_key (\<lambda>r. - int (timestamp r)) rows)"
proof -
  have "sorted (map (\<lambda>r. - int (timestamp r)) (sort_key (\<lambda>r. - int (timestamp r)) rows))"
    by (rule sorted_sort_key)
  then show ?thesis
    by (simp add: sorted_map)
qed

text \<open>
  C6: when no sort is specified the table's sort state is \<open>defaultSorted\<close>, the timestamp
  column descending; the rows shown are the filtered rows, most recent first.
\<close>

theorem default_sort_timestamp_desc:
  "defaultSorted (render p) = [\<lparr> sort_id = ''timestamp'', desc = True \<rparr>]
   \<and> sorted_wrt (\<lambda>a b. timestamp b \<le> timestamp a) (sortedData None filtered (render p))
   \<and> mset (sortedData None filtered (render p)) = mset (filterData filtered (table_data_of p))"
proof -
  have d: "defaultSorted (render p) = [\<lparr> sort_id = ''timestamp'', desc = True \<rparr>]"
    by (simp add: render_def Let_def)
  have s: "sortedData None filtered (render p)
      = sort_key (\<lambda>r. - int (timestamp r)) (filterData filtered (table_data_of p))"
    by (simp add: sortedData_def d sortData_default table_data_render)
  show ?thesis
    unfolding s using d sort_key_desc_sorted by simp
qed

theorem default_sort_timestamp_desc_witness:
  "map timestamp (table_data_of (props_of rows3)) = [7, 9, 8]
   \<and> map timestamp (sortedData None None (render (props_of rows3))) = [9, 8, 7]"
proof -
  have "map timestamp (table_data_of (props_of rows3)) = [7, 9, 8]"
    by (simp add: table_data_of_props_of rows3_def sample_row_def)
  moreover have "map timestamp (sortedData None None (render (props_of rows3))) = [9, 8, 7]"
    using default_sort_timestamp_desc [of "props_of rows3" None]
    by (simp add: sortedData_def sortData_default table_data_render table_data_of_props_of
        filterData_def rows3_def sample_row_def)
  ultimately show ?thesis
    by simp
qed

section \<open>The buttons\<close>

text \<open>
  C10: every click of the Skip button calls \<open>changeToSkip\<close> once, with the row's id and
  its \<open>old_label_id\<close>, whatever the row; a label button calls nothing when the label is
  the row's old label.
\<close>

theorem skip_unconditional:
  "skip_onClick r = [ChangeToSkip (row_id r) (old_label_id r)]
   \<and> skip_onClick r \<noteq> []
   \<and> (label_onClick lbl r = []) = (old_label_id r = pk lbl)"
  by (simp add: skip_onClick_def label_onClick_def strict_eq_def)

theorem skip_unconditional_witness:
  "label_onClick \<lparr> pk = JNum 1, name = JStr ''spam'' \<rparr> (sample_row 0 ''a dog'') = []
   \<and> skip_onClick (sample_row 0 ''a dog'') = [ChangeToSkip (JNum 0) (JNum 1)]"
  using skip_unconditional [of "sample_row 0 ''a dog''" "\<lparr> pk = JNum 1, name = JStr ''spam'' \<rparr>"]
  by (simp add: sample_row_def)

section \<open>The revision subsystem: projection and replay\<close>

lemma replay_last_snoc: "replay_last (es @ [e]) = Some (new_label_id e)"
  by (cases es) (simp_all add: replay_last_def)

lemma get_advance:
  "get (advance proj e) i = (if item_id e = i then Some (new_label_id e) else get proj i)"
  by (simp add: get_def advance_def)

lemma get_foldl_advance:
  "get (foldl advance Map.empty es) i = replay_last (filter (\<lambda>e. item_id e = i) es)"
proof (induction es rule: rev_induct)
  case Nil
  show ?case
    by (simp add: get_def replay_last_def)
next
  case (snoc e es)
  then show ?case
    by (simp add: get_advance replay_last_snoc)
qed

lemma read_all_sorted:
  assumes "sorted_wrt (<) (map event_timestamp es)"
  shows "read_all es None = es"
    and "read_all es (Some i) = filter (\<lambda>e. item_id e = i) es"
proof -
  have s: "sorted (map event_timestamp es)"
    using assms by (rule strict_sorted_imp_sorted)
  then show "read_all es None = es"
    by (simp add: read_all_def sort_key_id_if_sorted)
  have "sorted (map event_timestamp (filter (\<lambda>e. item_id e = i) es))"
    using s by (rule sorted_filter)
  then show "read_all es (Some i) = filter (\<lambda>e. item_id e = i) es"
    by (simp add: read_all_def sort_key_id_if_sorted)
qed

lemma store_ok_chain_tip:
  assumes "store_ok s"
  shows "chain_tip (events s) i = get (projection s) i"
  using assms by (simp add: store_ok_def chain_tip_def read_all_sorted get_foldl_advance)

lemma store_ok_rebuild:
  assumes "store_ok s"
  shows "rebuild (events s) = projection s"
  using assms by (simp add: store_ok_def rebuild_def read_all_sorted)

lemma store_ok_init: "store_ok (init c)"
  by (simp add: store_ok_def init_def)

lemma commit_ok:
  assumes ok: "store_ok s" and tip: "get (projection s) item = prev"
  shows "\<exists>s'. commit s item prev new = Inr (Appended (length (events s)), s')
           \<and> length (events s') = Suc (length (events s)) \<and> store_ok s'"
proof -
  define e where "e = \<lparr> event_id = length (events s), item_id = item, previous_label_id = prev,
     new_label_id = new, event_timestamp = now s, raw_data = content s item \<rparr>"
  define s' where "s' = s\<lparr>events := events s @ [e],
     projection := advance (projection s) e, now := Suc (now s)\<rparr>"
  have "chain_tip (events s) item = prev"
    using ok tip by (simp add: store_ok_chain_tip)
  then have c: "commit s item prev new = Inr (Appended (length (events s)), s')"
    by (simp add: commit_def store_append_def e_def s'_def Let_def)
  have before: "\<forall>x \<in> set (events s). event_timestamp x < now s"
    using ok by (simp add: store_ok_def list_all_iff)
  have "sorted_wrt (<) (map event_timestamp (events s'))"
    using ok before by (simp add: store_ok_def s'_def e_def sorted_wrt_append)
  moreover have "list_all (\<lambda>x. event_timestamp x < now s') (events s')"
    using before by (auto simp: s'_def e_def list_all_iff)
  moreover have "map event_id (events s') = [0..<length (events s')]"
    using ok by (simp add: store_ok_def s'_def e_def)
  moreover have "projection s' = foldl advance Map.empty (events s')"
    using ok by (simp add: store_ok_def s'_def)
  ultimately have "store_ok s'"
    by (simp add: store_ok_def)
  moreover have "length (events s') = Suc (length (events s))"
    by (simp add: s'_def)
  ultimately show ?thesis
    using c by blast
qed

lemma store_ok_handle:
  assumes "store_ok s"
  shows "store_ok (handle s req)"
proof (cases req)
  case (Relabel item expected new)
  show ?thesis
  proof (cases "get (projection s) item = expected \<and> Some new \<noteq> expected")
    case True
    then obtain s' where "commit s item expected new = Inr (Appended (length (events s)), s')"
      and "store_ok s'"
      using commit_ok [OF assms, of item expected new] by blast
    then show ?thesis
      using True Relabel by (simp add: relabel_def)
  next
    case False
    then show ?thesis
      using assms Relabel by (auto simp: relabel_def)
  qed
next
  case (Skip item expected)
  show ?thesis
  proof (cases "get (projection s) item = expected")
    case True
    then obtain s' where "commit s item expected Skipped = Inr (Appended (length (events s)), s')"
      and "store_ok s'"
      using commit_ok [OF assms, of item expected Skipped] by blast
    then show ?thesis
      using True Skip by (simp add: skip_def)
  next
    case False
    then show ?thesis
      using assms Skip by (simp add: skip_def)
  qed
next
  case (Elapse d)
  have "list_all (\<lambda>e. event_timestamp e < now s + d) (events s)"
    using assms by (auto simp: store_ok_def list_all_iff)
  then show ?thesis
    using assms Elapse by (simp add: store_ok_def)
qed

lemma store_ok_foldl: "store_ok s \<Longrightarrow> store_ok (foldl handle s reqs)"
  by (induction reqs arbitrary: s) (simp_all add: store_ok_handle)

lemma store_ok_run: "store_ok (run c reqs)"
  unfolding run_def by (rule store_ok_foldl) (rule store_ok_init)

text \<open>
  C4: after any sequence of requests, for every item, replaying the item's events in
  timestamp order and taking the last \<open>new_label_id\<close> gives the projection's entry for
  that item, and \<open>rebuild\<close>, the fold of the store from the empty projection, is the live
  projection.
\<close>

theorem projection_replay:
  "get (projection (run c reqs)) item = replay_last (read_all (events (run c reqs)) (Some item))
   \<and> rebuild (events (run c reqs)) = projection (run c reqs)"
proof -
  have ok: "store_ok (run c reqs)"
    by (rule store_ok_run)
  then have "chain_tip (events (run c reqs)) item = get (projection (run c reqs)) item"
    by (rule store_ok_chain_tip)
  then show ?thesis
    using store_ok_rebuild [OF ok] by (simp add: chain_tip_def)
qed

lemma replay_last_map: "es \<noteq> [] \<Longrightarrow> replay_last es = Some (last (map new_label_id es))"
  by (cases es) (simp_all add: replay_last_def last_map)

lemma sample_run_history:
  "map new_label_id (read_all (events (run (\<lambda>i. ''some text'') sample_requests)) (Some 7))
     = [Label 10, Skipped, Label 20]"
  by (simp add: run_def sample_requests_def init_def relabel_def skip_def commit_def
      store_append_def chain_tip_def read_all_def replay_last_def get_def advance_def Let_def)

theorem projection_replay_witness:
  "map new_label_id (read_all (events (run (\<lambda>i. ''some text'') sample_requests)) (Some 7))
     = [Label 10, Skipped, Label 20]
   \<and> get (projection (run (\<lambda>i. ''some text'') sample_requests)) 7 = Some (Label 20)
   \<and> rebuild (events (run (\<lambda>i. ''some text'') sample_requests))
       = projection (run (\<lambda>i. ''some text'') sample_requests)"
proof -
  let ?s = "run (\<lambda>i. ''some text'') sample_requests"
  have "read_all (events ?s) (Some 7) \<noteq> []"
    using sample_run_history by auto
  then have "replay_last (read_all (events ?s) (Some 7)) = Some (Label 20)"
    by (simp add: replay_last_map sample_run_history)
  then show ?thesis
    using projection_replay [of "\<lambda>i. ''some text''" sample_requests 7] sample_run_history
    by simp
qed

section \<open>The revision subsystem: commands\<close>

lemma commit_Inr:
  assumes "commit s item prev new = Inr (out, s')"
  shows "out = Appended (length (events s)) \<and> length (events s') = Suc (length (events s))
     \<and> prev = chain_tip (events s) item"
  using assms by (auto simp: commit_def store_append_def Let_def split: if_splits)

lemma relabel_stale_unchanged:
  assumes "get (projection s) item \<noteq> expected"
  shows "relabel s item expected new = Inl StaleStateError"
    and "handle s (Relabel item expected new) = s"
  using assms by (simp_all add: relabel_def)

lemma relabel_same:
  "relabel s item (Some new) new = Inl StaleStateError
   \<or> relabel s item (Some new) new = Inr (NoOp, s)"
  by (simp add: relabel_def)

lemma handle_relabel_same: "handle s (Relabel item (Some new) new) = s"
  using relabel_same [of s item new] by auto

lemma relabel_succeeds:
  assumes "store_ok s" and "get (projection s) item = expected" and "Some new \<noteq> expected"
  shows "\<exists>s'. relabel s item expected new = Inr (Appended (length (events s)), s')"
  using commit_ok [OF assms(1,2), of new] assms(2,3) by (auto simp: relabel_def)

lemma labelled_once_ok: "store_ok labelled_once"
  unfolding labelled_once_def by (rule store_ok_run)

lemma labelled_once_get: "get (projection labelled_once) 7 = Some (Label 10)"
  by (simp add: labelled_once_def run_def init_def relabel_def commit_def store_append_def
      chain_tip_def read_all_def replay_last_def get_def advance_def Let_def)

lemma labelled_once_count: "history_count labelled_once 7 = 1"
  by (simp add: history_count_def labelled_once_def run_def init_def relabel_def commit_def
      store_append_def chain_tip_def read_all_def replay_last_def get_def advance_def Let_def)

text \<open>
  C7: a relabel whose expected previous label is not the item's projected label fails
  with StaleStateError, and the state stays as it was (the error goes back to the caller,
  nothing is tried again); a relabel that appends an event had an expected previous label
  equal to the projection.
\<close>

theorem relabel_stale:
  "(get (projection s) item \<noteq> expected \<longrightarrow>
      relabel s item expected new = Inl StaleStateError
      \<and> handle s (Relabel item expected new) = s)
   \<and> (relabel s item expected new = Inr (Appended eid, s') \<longrightarrow>
      get (projection s) item = expected
      \<and> length (events s') = Suc (length (events s)))"
proof -
  have "get (projection s) item = expected \<and> length (events s') = Suc (length (events s))"
    if r: "relabel s item expected new = Inr (Appended eid, s')"
  proof -
    have fresh: "get (projection s) item = expected"
      using r by (simp add: relabel_def split: if_splits)
    then have "commit s item expected new = Inr (Appended eid, s')"
      using r by (simp add: relabel_def split: if_splits)
    then show ?thesis
      using fresh commit_Inr by blast
  qed
  then show ?thesis
    using relabel_stale_unchanged by blast
qed

theorem relabel_stale_witness:
  "get (projection labelled_once) 7 \<noteq> None
   \<and> relabel labelled_once 7 None (Label 20) = Inl StaleStateError
   \<and> handle labelled_once (Relabel 7 None (Label 20)) = labelled_once
   \<and> (\<exists>eid s'. relabel labelled_once 7 (Some (Label 10)) (Label 20) = Inr (Appended eid, s')
        \<and> get (projection labelled_once) 7 = Some (Label 10)
        \<and> length (events s') = Suc (length (events labelled_once)))"
proof -
  have stale: "get (projection labelled_once) 7 \<noteq> None"
    by (simp add: labelled_once_get)
  obtain s' where r: "relabel labelled_once 7 (Some (Label 10)) (Label 20)
      = Inr (Appended (length (events labelled_once)), s')"
    using relabel_succeeds [OF labelled_once_ok labelled_once_get, of "Label 20"] by auto
  from relabel_stale [of labelled_once 7 None "Label 20"] stale
  have "relabel labelled_once 7 None (Label 20) = Inl StaleStateError
      \<and> handle labelled_once (Relabel 7 None (Label 20)) = labelled_once"
    by blast
  moreover from relabel_stale [of labelled_once 7 "Some (Label 10)" "Label 20"
      "length (events labelled_once)" s'] r
  have "get (projection labelled_once) 7 = Some (Label 10)
      \<and> length (events s') = Suc (length (events labelled_once))"
    by blast
  ultimately show ?thesis
    using stale r by blast
qed

text \<open>
  C2: when the chosen new label is the expected previous label, no relabel action is
  issued (the label button calls nothing when the label's \<open>pk\<close> is the row's
  \<open>old_label_id\<close>), and the relabel command itself appends nothing: it answers with the
  no-op or with StaleStateError, the state is unchanged, and so is the item's history
  count.
\<close>

theorem relabel_same_noop:
  "(old_label_id r = pk lbl \<longrightarrow> label_onClick lbl r = [])
   \<and> (expected = Some new \<longrightarrow>
        (relabel s item expected new = Inl StaleStateError
         \<or> relabel s item expected new = Inr (NoOp, s))
        \<and> handle s (Relabel item expected new) = s
        \<and> events (handle s (Relabel item expected new)) = events s
        \<and> history_count (handle s (Relabel item expected new)) item = history_count s item)"
proof -
  have "label_onClick lbl r = []" if "old_label_id r = pk lbl"
    using that by (simp add: label_onClick_def strict_eq_def)
  then show ?thesis
    using relabel_same [of s item new] handle_relabel_same [of s item new] by auto
qed

theorem relabel_same_noop_witness:
  "old_label_id (sample_row 0 ''a dog'') = pk \<lparr> pk = JNum 1, name = JStr ''spam'' \<rparr>
   \<and> label_onClick \<lparr> pk = JNum 1, name = JStr ''spam'' \<rparr> (sample_row 0 ''a dog'') = []
   \<and> relabel labelled_once 7 (Some (Label 10)) (Label 10) = Inr (NoOp, labelled_once)
   \<and> history_count (handle labelled_once (Relabel 7 (Some (Label 10)) (Label 10))) 7 = 1"
proof -
  have same: "old_label_id (sample_row 0 ''a dog'') = pk \<lparr> pk = JNum 1, name = JStr ''spam'' \<rparr>"
    by (simp add: sample_row_def)
  have "relabel labelled_once 7 (Some (Label 10)) (Label 10) \<noteq> Inl StaleStateError"
    by (simp add: relabel_def labelled_once_get)
  then show ?thesis
    using same labelled_once_count
      relabel_same_noop [of "sample_row 0 ''a dog''" "\<lparr> pk = JNum 1, name = JStr ''spam'' \<rparr>"
        "Some (Label 10)" "Label 10" labelled_once 7]
    by auto
qed

end
